theory Spec2Isabelle
  imports Main "HOL-Library.Sublist"
begin

section \<open>Python values\<close>

text \<open>
  The plugin builds its snapshot and its JSON-RPC envelopes out of Python dicts, lists, strings,
  ints and \<open>None\<close>, and \<open>json.loads\<close> hands it values of the same kinds. A dict is the list
  of its items in insertion order (its keys are distinct; every key that occurs is a string).
  A float is carried as the text \<open>repr\<close> gives for it: the plugin never computes with one.
  A \<open>string\<close> stands for a Python \<open>str\<close> whose code points are below 256.
\<close>

datatype pyval =
    PyNone
  | PyBool bool
  | PyInt int
  | PyFloat string
  | PyStr string
  | PyList "pyval list"
  | PyDict "(string \<times> pyval) list"

text \<open>\<open>d.get(key, default)\<close> on the items of a dict.\<close>

definition dict_get :: "(string \<times> pyval) list \<Rightarrow> string \<Rightarrow> pyval \<Rightarrow> pyval" where
  "dict_get items key dflt = (case map_of items key of Some v \<Rightarrow> v | None \<Rightarrow> dflt)"

section \<open>The host editor, as the snapshot builder queries it\<close>

text \<open>
  \<open>sublime.Region(a, b)\<close>: \<open>empty()\<close> is \<open>a == b\<close>, \<open>begin()\<close> the smaller and
  \<open>end()\<close> the larger end point.
\<close>

datatype region = Region int int

fun region_empty :: "region \<Rightarrow> bool" where
  "region_empty (Region a b) = (a = b)"

fun region_begin :: "region \<Rightarrow> int" where
  "region_begin (Region a b) = min a b"

fun region_end :: "region \<Rightarrow> int" where
  "region_end (Region a b) = max a b"

text \<open>
  A view answers \<open>file_name()\<close> (\<open>None\<close> for a buffer with no file), \<open>sel()\<close> (its selection
  regions) and \<open>rowcol(point)\<close>. A window answers \<open>folders()\<close>, \<open>active_view()\<close> and
  \<open>views()\<close>. \<open>sublime.windows()\<close> is a list of windows in the host's native order.
\<close>

record view =
  file_name :: "string option"
  sel :: "region list"
  rowcol :: "int \<Rightarrow> int \<times> int"

record window =
  folders :: "string list"
  active_view :: "view option"
  views :: "view list"

section \<open>EditorContextState.get_state_snapshot\<close>

text \<open>Lines 44 to 65: the selection of a view, from its first region only.\<close>

definition selection_info :: "view \<Rightarrow> pyval" where
  "selection_info v =
     (case sel v of
        [] \<Rightarrow> PyNone
      | region # _ \<Rightarrow>
          if \<not> region_empty region then
            (case rowcol v (region_begin region) of (start_row, start_col) \<Rightarrow>
             case rowcol v (region_end region) of (end_row, end_col) \<Rightarrow>
               PyDict [(''start'', PyDict [(''line'', PyInt (start_row + 1)), (''column'', PyInt start_col)]),
                       (''end'', PyDict [(''line'', PyInt (end_row + 1)), (''column'', PyInt end_col)])])
          else
            (case rowcol v (region_begin region) of (cursor_row, cursor_col) \<Rightarrow>
               PyDict [(''cursor'', PyDict [(''line'', PyInt (cursor_row + 1)), (''column'', PyInt cursor_col)])]))"

text \<open>Lines 68 to 71: the file object of a view whose file name is \<open>fname\<close>.\<close>

definition file_obj :: "string \<Rightarrow> view \<Rightarrow> pyval" where
  "file_obj fname v = PyDict [(''path'', PyStr fname), (''selection'', selection_info v)]"

text \<open>The four local accumulators of the function (lines 20 to 23).\<close>

record snapshot_state =
  active_files :: "pyval list"
  other_files :: "pyval list"
  project_folders :: "string list"
  seen_files :: "string set"

definition initial_state :: snapshot_state where
  "initial_state = \<lparr>active_files = [], other_files = [], project_folders = [], seen_files = {}\<rparr>"

text \<open>Lines 29 to 31, one folder of one window.\<close>

definition add_folder :: "string \<Rightarrow> snapshot_state \<Rightarrow> snapshot_state" where
  "add_folder folder st =
     (if folder \<notin> set (project_folders st)
      then st\<lparr>project_folders := project_folders st @ [folder]\<rparr>
      else st)"

text \<open>Line 35.\<close>

definition active_file_in_window :: "window \<Rightarrow> string option" where
  "active_file_in_window w = (case active_view w of Some av \<Rightarrow> file_name av | None \<Rightarrow> None)"

text \<open>
  Lines 39 to 77, the body of the loop over the views of one window. \<open>if file_name\<close> is
  Python's truth of a string or \<open>None\<close>: \<open>None\<close> and the empty string are skipped.
\<close>

definition visit_view :: "string option \<Rightarrow> view \<Rightarrow> snapshot_state \<Rightarrow> snapshot_state" where
  "visit_view active_file v st =
     (case file_name v of
        None \<Rightarrow> st
      | Some fname \<Rightarrow>
          if fname \<noteq> [] \<and> fname \<notin> seen_files st then
            (let st1 = st\<lparr>seen_files := insert fname (seen_files st)\<rparr>
             in if Some fname = active_file
                then st1\<lparr>active_files := active_files st1 @ [file_obj fname v]\<rparr>
                else st1\<lparr>other_files := other_files st1 @ [file_obj fname v]\<rparr>)
          else st)"

text \<open>Lines 27 to 77, the body of the loop over the windows.\<close>

definition visit_window :: "window \<Rightarrow> snapshot_state \<Rightarrow> snapshot_state" where
  "visit_window w st =
     fold (visit_view (active_file_in_window w)) (views w) (fold add_folder (folders w) st)"

text \<open>Line 26: the windows are visited in the reverse of the order the host lists them in.\<close>

definition scan_windows :: "window list \<Rightarrow> snapshot_state" where
  "scan_windows ws = fold visit_window (rev ws) initial_state"

text \<open>
  The function itself; \<open>now\<close> is what \<open>datetime.now().isoformat()\<close> answers at line 83.
\<close>

definition get_state_snapshot :: "window list \<Rightarrow> string \<Rightarrow> pyval" where
  "get_state_snapshot ws now =
     (let st = scan_windows ws
      in PyDict [(''activeFiles'', PyList (active_files st)),
                 (''otherFiles'', PyList (other_files st)),
                 (''projectFolders'', PyList (map PyStr (project_folders st))),
                 (''lastUpdated'', PyStr now)])"

text \<open>Reading a snapshot: the list stored under a key, and the path of a file object.\<close>

definition snapshot_list :: "string \<Rightarrow> pyval \<Rightarrow> pyval list" where
  "snapshot_list key snap =
     (case snap of
        PyDict items \<Rightarrow> (case map_of items key of Some (PyList xs) \<Rightarrow> xs | _ \<Rightarrow> [])
      | _ \<Rightarrow> [])"

definition snapshot_files :: "pyval \<Rightarrow> pyval list" where
  "snapshot_files snap = snapshot_list ''activeFiles'' snap @ snapshot_list ''otherFiles'' snap"

definition entry_path :: "pyval \<Rightarrow> pyval" where
  "entry_path e = (case e of PyDict items \<Rightarrow> dict_get items ''path'' PyNone | _ \<Rightarrow> PyNone)"

definition entry_selection :: "pyval \<Rightarrow> pyval" where
  "entry_selection e = (case e of PyDict items \<Rightarrow> dict_get items ''selection'' PyNone | _ \<Rightarrow> PyNone)"

section \<open>What Python's library does with these values\<close>

text \<open>
  \<open>str(n)\<close> of an int, \<open>repr\<close> of a string (quotes chosen as CPython chooses them, the
  backslash escapes it writes, and the code points below 256 it holds unprintable), and
  \<open>str\<close> of any value, which \<open>"...{}".format(x)\<close> inserts.
\<close>

definition digit_char :: "nat \<Rightarrow> char" where
  "digit_char d = ''0123456789abcdef'' ! d"

fun dec_nat :: "nat \<Rightarrow> string" where
  "dec_nat n = (if n < 10 then [digit_char n] else dec_nat (n div 10) @ [digit_char (n mod 10)])"

declare dec_nat.simps [simp del]

definition int_str :: "int \<Rightarrow> string" where
  "int_str i = (if i < 0 then CHR ''-'' # dec_nat (nat (- i)) else dec_nat (nat i))"

definition hex2 :: "nat \<Rightarrow> string" where
  "hex2 n = [digit_char (n div 16 mod 16), digit_char (n mod 16)]"

definition printable :: "char \<Rightarrow> bool" where
  "printable c =
     (let n = (of_char c :: nat)
      in (32 \<le> n \<and> n \<le> 126) \<or> (161 \<le> n \<and> n \<noteq> 173))"

definition repr_char :: "char \<Rightarrow> char \<Rightarrow> string" where
  "repr_char quote c =
     (if c = quote \<or> c = CHR 0x5C then [CHR 0x5C, c]
      else if c = CHR 0x09 then [CHR 0x5C, CHR ''t'']
      else if c = CHR 0x0A then [CHR 0x5C, CHR ''n'']
      else if c = CHR 0x0D then [CHR 0x5C, CHR ''r'']
      else if printable c then [c]
      else [CHR 0x5C, CHR ''x''] @ hex2 (of_char c))"

definition str_repr :: "string \<Rightarrow> string" where
  "str_repr s =
     (let quote = (if CHR 0x27 \<in> set s \<and> CHR 0x22 \<notin> set s then CHR 0x22 else CHR 0x27)
      in quote # concat (map (repr_char quote) s) @ [quote])"

fun join :: "string \<Rightarrow> string list \<Rightarrow> string" where
  "join sep [] = []"
| "join sep [x] = x"
| "join sep (x # y # ys) = x @ sep @ join sep (y # ys)"

fun py_repr :: "pyval \<Rightarrow> string" where
  "py_repr PyNone = ''None''"
| "py_repr (PyBool b) = (if b then ''True'' else ''False'')"
| "py_repr (PyInt i) = int_str i"
| "py_repr (PyFloat r) = r"
| "py_repr (PyStr s) = str_repr s"
| "py_repr (PyList xs) = ''['' @ join '', '' (map py_repr xs) @ '']''"
| "py_repr (PyDict kvs) =
     ''{'' @ join '', '' (map (\<lambda>(k, v). str_repr k @ '': '' @ py_repr v) kvs) @ ''}''"

definition py_str :: "pyval \<Rightarrow> string" where
  "py_str x = (case x of PyStr s \<Rightarrow> s | _ \<Rightarrow> py_repr x)"

text \<open>
  \<open>json.dumps(obj, indent=n)\<close>: strings escaped as \<open>ensure_ascii\<close> does, items separated by
  a comma and a new line indented one level deeper, keys followed by a colon and a space,
  empty containers written closed.
\<close>

definition json_char :: "char \<Rightarrow> string" where
  "json_char c =
     (if c = CHR 0x22 then [CHR 0x5C, CHR 0x22]
      else if c = CHR 0x5C then [CHR 0x5C, CHR 0x5C]
      else if c = CHR 0x0A then [CHR 0x5C, CHR ''n'']
      else if c = CHR 0x0D then [CHR 0x5C, CHR ''r'']
      else if c = CHR 0x09 then [CHR 0x5C, CHR ''t'']
      else if c = CHR 0x08 then [CHR 0x5C, CHR ''b'']
      else if c = CHR 0x0C then [CHR 0x5C, CHR ''f'']
      else if 32 \<le> (of_char c :: nat) \<and> (of_char c :: nat) \<le> 126 then [c]
      else [CHR 0x5C, CHR ''u'', CHR ''0'', CHR ''0''] @ hex2 (of_char c))"

definition json_string :: "string \<Rightarrow> string" where
  "json_string s = CHR 0x22 # concat (map json_char s) @ [CHR 0x22]"

definition json_float :: "string \<Rightarrow> string" where
  "json_float r =
     (if r = ''nan'' then ''NaN'' else if r = ''inf'' then ''Infinity''
      else if r = ''-inf'' then ''-Infinity'' else r)"

definition newline_indent :: "nat \<Rightarrow> nat \<Rightarrow> string" where
  "newline_indent n level = CHR 0x0A # replicate (n * level) CHR '' ''"

fun dumps_indent :: "nat \<Rightarrow> nat \<Rightarrow> pyval \<Rightarrow> string" where
  "dumps_indent n level PyNone = ''null''"
| "dumps_indent n level (PyBool b) = (if b then ''true'' else ''false'')"
| "dumps_indent n level (PyInt i) = int_str i"
| "dumps_indent n level (PyFloat r) = json_float r"
| "dumps_indent n level (PyStr s) = json_string s"
| "dumps_indent n level (PyList xs) =
     (if xs = [] then ''[]''
      else ''['' @ newline_indent n (Suc level)
           @ join (CHR '','' # newline_indent n (Suc level)) (map (dumps_indent n (Suc level)) xs)
           @ newline_indent n level @ '']'')"
| "dumps_indent n level (PyDict kvs) =
     (if kvs = [] then ''{}''
      else ''{'' @ newline_indent n (Suc level)
           @ join (CHR '','' # newline_indent n (Suc level))
               (map (\<lambda>(k, v). json_string k @ '': '' @ dumps_indent n (Suc level) v) kvs)
           @ newline_indent n level @ ''}'')"

section \<open>Exceptions\<close>

text \<open>
  The exception classes that occur, each with the text \<open>str(e)\<close> gives. All of them are
  subclasses of \<open>Exception\<close>, so \<open>except Exception\<close> catches each one.
\<close>

datatype py_exception =
    ValueError (message: string)
  | AttributeError (message: string)
  | UnboundLocalError (message: string)
  | UnicodeDecodeError (message: string)
  | JSONDecodeError (message: string)
  | OSError (message: string)
  | RuntimeError (message: string)

definition quoted :: "string \<Rightarrow> string" where
  "quoted s = CHR 0x27 # s @ [CHR 0x27]"

fun type_name :: "pyval \<Rightarrow> string" where
  "type_name PyNone = ''NoneType''"
| "type_name (PyBool b) = ''bool''"
| "type_name (PyInt i) = ''int''"
| "type_name (PyFloat r) = ''float''"
| "type_name (PyStr s) = ''str''"
| "type_name (PyList xs) = ''list''"
| "type_name (PyDict kvs) = ''dict''"

text \<open>\<open>isinstance(obj, dict)\<close>.\<close>

fun is_dict :: "pyval \<Rightarrow> bool" where
  "is_dict (PyDict kvs) = True"
| "is_dict obj = False"

text \<open>
  \<open>obj.get(key, default)\<close>: only a dict has the method; on any other value the attribute
  lookup raises.
\<close>

definition py_get :: "pyval \<Rightarrow> string \<Rightarrow> pyval \<Rightarrow> py_exception + pyval" where
  "py_get obj key dflt =
     (case obj of
        PyDict items \<Rightarrow> Inr (dict_get items key dflt)
      | _ \<Rightarrow> Inl (AttributeError
                 (quoted (type_name obj) @ '' object has no attribute '' @ quoted ''get'')))"

section \<open>MCPRequestHandler\<close>

text \<open>Lines 204 to 209.\<close>

definition get_resource_content :: "window list \<Rightarrow> string \<Rightarrow> pyval \<Rightarrow> py_exception + string" where
  "get_resource_content ws now uri =
     (if uri = PyStr ''sublime-context://state''
      then Inr (dumps_indent 2 0 (get_state_snapshot ws now))
      else Inl (ValueError (''Unknown resource URI: '' @ py_str uri)))"

text \<open>Lines 138 to 202.\<close>

definition handle_mcp_request :: "window list \<Rightarrow> string \<Rightarrow> pyval \<Rightarrow> py_exception + pyval" where
  "handle_mcp_request ws now request =
     (case py_get request ''method'' PyNone of
        Inl e \<Rightarrow> Inl e
      | Inr method \<Rightarrow>
     (case py_get request ''params'' (PyDict []) of
        Inl e \<Rightarrow> Inl e
      | Inr params \<Rightarrow>
     (case py_get request ''id'' PyNone of
        Inl e \<Rightarrow> Inl e
      | Inr request_id \<Rightarrow>
        if method = PyStr ''initialize'' then
          Inr (PyDict
            [(''jsonrpc'', PyStr ''2.0''),
             (''result'', PyDict
                [(''protocolVersion'', PyStr ''2024-11-05''),
                 (''capabilities'', PyDict [(''resources'', PyDict [])]),
                 (''serverInfo'', PyDict
                    [(''name'', PyStr ''sublime-editor-context''),
                     (''version'', PyStr ''0.1.0'')])]),
             (''id'', request_id)])
        else if method = PyStr ''resources/list'' then
          Inr (PyDict
            [(''jsonrpc'', PyStr ''2.0''),
             (''result'', PyDict
                [(''resources'', PyList
                    [PyDict
                       [(''uri'', PyStr ''sublime-context://state''),
                        (''name'', PyStr ''Editor State''),
                        (''description'', PyStr
                           ''Complete editor state with active files per window and other open files''),
                        (''mimeType'', PyStr ''application/json'')]])]),
             (''id'', request_id)])
        else if method = PyStr ''resources/read'' then
          (case py_get params ''uri'' PyNone of
             Inl e \<Rightarrow> Inl e
           | Inr uri \<Rightarrow>
          (case get_resource_content ws now uri of
             Inl e \<Rightarrow> Inl e
           | Inr content \<Rightarrow>
             Inr (PyDict
               [(''jsonrpc'', PyStr ''2.0''),
                (''result'', PyDict
                   [(''contents'', PyList
                       [PyDict
                          [(''uri'', uri),
                           (''mimeType'', PyStr ''application/json''),
                           (''text'', PyStr content)]])]),
                (''id'', request_id)])))
        else
          Inr (PyDict
            [(''jsonrpc'', PyStr ''2.0''),
             (''error'', PyDict
                [(''code'', PyInt (- 32601)),
                 (''message'', PyStr (''Method not found: '' @ py_str method))]),
             (''id'', request_id)]))))"

text \<open>
  What \<open>do_POST\<close> is given: how far lines 113 to 117 get with the bytes the client sent.
  Reading the header and decoding the body (lines 113 and 114) may raise; \<open>json.loads\<close>
  (line 117) may raise; or it returns a value.
\<close>

datatype post_body =
    Undecodable py_exception
  | Unparsable py_exception
  | Parsed pyval

text \<open>
  What \<open>do_POST\<close> sends: the status, the headers, and the value whose \<open>json.dumps\<close> is
  written as the body.
\<close>

record http_response =
  status :: int
  headers :: "(string \<times> string) list"
  payload :: pyval

text \<open>
  Lines 124 to 136, the exception handler. The local variable \<open>request\<close> is bound only
  once line 117 has returned (\<open>None\<close> here is the unbound variable, whose read raises).
\<close>

definition post_failure :: "pyval option \<Rightarrow> py_exception \<Rightarrow> py_exception + http_response" where
  "post_failure request_var e =
     (case request_var of
        None \<Rightarrow>
          Inl (UnboundLocalError
                 (''local variable '' @ quoted ''request'' @ '' referenced before assignment''))
      | Some request \<Rightarrow>
          (let request_id = (case request of
                               PyDict items \<Rightarrow> dict_get items ''id'' PyNone
                             | _ \<Rightarrow> PyNone)
           in
               Inr \<lparr>status = 500,
                    headers = [(''Content-type'', ''application/json'')],
                    payload = PyDict
                      [(''jsonrpc'', PyStr ''2.0''),
                       (''error'', PyDict
                          [(''code'', PyInt (- 32603)),
                           (''message'', PyStr (message e))]),
                       (''id'', request_id)]\<rparr>))"

text \<open>
  Lines 111 to 136. \<open>Inl\<close> is an exception that leaves \<open>do_POST\<close>: nothing has been sent
  then.
\<close>

definition do_POST :: "window list \<Rightarrow> string \<Rightarrow> post_body \<Rightarrow> py_exception + http_response" where
  "do_POST ws now body =
     (case body of
        Undecodable e \<Rightarrow> Inl e
      | Unparsable e \<Rightarrow> post_failure None e
      | Parsed request \<Rightarrow>
          (case handle_mcp_request ws now request of
             Inl e \<Rightarrow> post_failure (Some request) e
           | Inr response \<Rightarrow>
               Inr \<lparr>status = 200,
                    headers = [(''Content-type'', ''application/json'')],
                    payload = response\<rparr>))"

section \<open>MCPServer\<close>

text \<open>
  \<open>socketserver.TCPServer(address, handler)\<close> as the standard library defines it: the
  constructor creates the socket and, \<open>bind_and_activate\<close> being true by default, calls
  \<open>server_bind\<close> before it returns. \<open>server_bind\<close> sets \<open>SO_REUSEADDR\<close> on the socket if
  the attribute \<open>allow_reuse_address\<close> is true at that moment (the class gives it as
  false), then binds. \<open>bind_outcome\<close> is what the operating system answers to the bind.
\<close>

record tcp_server =
  server_address :: "string \<times> int"
  allow_reuse_address :: bool
  so_reuseaddr :: bool
  bound :: bool

definition server_bind :: "py_exception option \<Rightarrow> tcp_server \<Rightarrow> py_exception + tcp_server" where
  "server_bind bind_outcome srv =
     (let srv1 = (if allow_reuse_address srv then srv\<lparr>so_reuseaddr := True\<rparr> else srv)
      in case bind_outcome of
           Some e \<Rightarrow> Inl e
         | None \<Rightarrow> Inr (srv1\<lparr>bound := True\<rparr>))"

definition TCPServer :: "py_exception option \<Rightarrow> string \<times> int \<Rightarrow> py_exception + tcp_server" where
  "TCPServer bind_outcome address =
     server_bind bind_outcome
       \<lparr>server_address = address, allow_reuse_address = False, so_reuseaddr = False,
        bound = False\<rparr>"

record py_thread =
  daemon :: bool
  started :: bool

text \<open>Lines 215 to 219: the fields of an \<open>MCPServer\<close>.\<close>

record mcp_server =
  port :: int
  server :: "tcp_server option"
  thread :: "py_thread option"
  running :: bool

definition new_MCPServer :: "int \<Rightarrow> mcp_server" where
  "new_MCPServer p = \<lparr>port = p, server = None, thread = None, running = False\<rparr>"

text \<open>
  Lines 221 to 237. The result is the object after the call and the lines printed, or
  \<open>Inl\<close> for an exception that reaches the caller. \<open>thread_outcome\<close> is what
  \<open>Thread.start()\<close> answers.
\<close>

definition start ::
  "py_exception option \<Rightarrow> py_exception option \<Rightarrow> mcp_server \<Rightarrow> py_exception + mcp_server \<times> string list"
where
  "start bind_outcome thread_outcome self =
     (if running self then Inr (self, [])
      else
        case TCPServer bind_outcome (''127.0.0.1'', port self) of
          Inl e \<Rightarrow> Inr (self, [''EditorContextMCP: Failed to start server: '' @ message e])
        | Inr srv \<Rightarrow>
            (let self1 = self\<lparr>server := Some (srv\<lparr>allow_reuse_address := True\<rparr>)\<rparr>;
                 self2 = self1\<lparr>running := True\<rparr>;
                 self3 = self2\<lparr>thread := Some \<lparr>daemon = True, started = False\<rparr>\<rparr>
             in case thread_outcome of
                  Some e \<Rightarrow>
                    Inr (self3, [''EditorContextMCP: Failed to start server: '' @ message e])
                | None \<Rightarrow>
                    Inr (self3\<lparr>thread := Some \<lparr>daemon = True, started = True\<rparr>\<rparr>,
                         [''EditorContextMCP: Server started on http://127.0.0.1:''
                            @ int_str (port self)])))"

section \<open>Notions the properties are stated with\<close>

text \<open>
  The views in the order the two loops reach them (windows from the last the host lists to
  the first, the views of a window in the host's order), each paired with the active file of
  its window.
\<close>

definition window_pairs :: "window \<Rightarrow> (string option \<times> view) list" where
  "window_pairs w = map (Pair (active_file_in_window w)) (views w)"

definition enumeration :: "window list \<Rightarrow> (string option \<times> view) list" where
  "enumeration ws = concat (map window_pairs (rev ws))"

text \<open>The first view of the enumeration whose file is \<open>p\<close>, with its window's active file.\<close>

definition first_view :: "string \<Rightarrow> window list \<Rightarrow> (string option \<times> view) option" where
  "first_view p ws = find (\<lambda>x. file_name (snd x) = Some p) (enumeration ws)"

text \<open>The file objects of a list whose path is \<open>p\<close>.\<close>

definition entries_for :: "string \<Rightarrow> pyval list \<Rightarrow> pyval list" where
  "entries_for p es = filter (\<lambda>e. entry_path e = PyStr p) es"

text \<open>A list without its repetitions, each element staying where it first occurs.\<close>

fun keep_first :: "'a list \<Rightarrow> 'a list" where
  "keep_first [] = []"
| "keep_first (x # xs) = x # filter (\<lambda>y. y \<noteq> x) (keep_first xs)"

text \<open>The files of a list of views that the test of line 40 can let through.\<close>

definition named :: "(string option \<times> view) list \<Rightarrow> string set" where
  "named xs = {f. f \<noteq> [] \<and> (\<exists>x \<in> set xs. file_name (snd x) = Some f)}"

text \<open>
  The file object the first view holding \<open>p\<close> gives, if that view's window has \<open>p\<close> as
  its active file (\<open>act\<close> true) or has not (\<open>act\<close> false).
\<close>

definition first_entry :: "string \<Rightarrow> bool \<Rightarrow> (string option \<times> view) list \<Rightarrow> pyval list" where
  "first_entry p act xs =
     (case find (\<lambda>x. file_name (snd x) = Some p) xs of
        None \<Rightarrow> []
      | Some x \<Rightarrow> if (fst x = Some p) = act then [file_obj p (snd x)] else [])"

text \<open>The loop over all views at once, on the pairs of the enumeration.\<close>

definition visit_pair :: "string option \<times> view \<Rightarrow> snapshot_state \<Rightarrow> snapshot_state" where
  "visit_pair x st = visit_view (fst x) (snd x) st"

section \<open>A small editor session\<close>

text \<open>
  Two windows. The frontmost one, which the host lists last, shows \<open>a.py\<close> with a cursor,
  an unsaved buffer, and \<open>b.py\<close> (focused) with two selections. The other one shows
  \<open>a.py\<close> again (focused there) and \<open>c.py\<close>. A third window shows \<open>c.py\<close> only.
  Every line of every buffer is eight characters long.
\<close>

definition grid :: "int \<Rightarrow> int \<times> int" where
  "grid pt = (pt div 8, pt mod 8)"

definition view_a :: view where
  "view_a = \<lparr>file_name = Some ''/p/a.py'', sel = [Region 29 29], rowcol = grid\<rparr>"

definition view_b :: view where
  "view_b = \<lparr>file_name = Some ''/p/b.py'', sel = [Region 10 0, Region 3 3], rowcol = grid\<rparr>"

definition view_unsaved :: view where
  "view_unsaved = \<lparr>file_name = None, sel = [], rowcol = grid\<rparr>"

definition view_a_again :: view where
  "view_a_again = \<lparr>file_name = Some ''/p/a.py'', sel = [], rowcol = grid\<rparr>"

definition view_c :: view where
  "view_c = \<lparr>file_name = Some ''/q/c.py'', sel = [Region 0 0], rowcol = grid\<rparr>"

definition front_window :: window where
  "front_window =
     \<lparr>folders = [''/q'', ''/r''], active_view = Some view_b,
      views = [view_a, view_unsaved, view_b]\<rparr>"

definition back_window :: window where
  "back_window =
     \<lparr>folders = [''/p'', ''/q''], active_view = Some view_a_again,
      views = [view_a_again, view_c]\<rparr>"

definition third_window :: window where
  "third_window =
     \<lparr>folders = [''/p''], active_view = Some view_c, views = [view_c]\<rparr>"

section \<open>Properties of the snapshot builder\<close>

subsection \<open>The two loops as one\<close>

lemma visit_view_add_folder:
  "visit_view a v (add_folder f st) = add_folder f (visit_view a v st)"
  by (simp add: visit_view_def add_folder_def Let_def split: option.splits)

lemma visit_pair_add_folder:
  "visit_pair x (add_folder f st) = add_folder f (visit_pair x st)"
  by (simp add: visit_pair_def visit_view_add_folder)

lemma visit_pair_add_folders:
  "visit_pair x (fold add_folder fs st) = fold add_folder fs (visit_pair x st)"
  by (induction fs arbitrary: st) (simp_all add: visit_pair_add_folder)

lemma visit_pairs_add_folders:
  "fold visit_pair xs (fold add_folder fs st) = fold add_folder fs (fold visit_pair xs st)"
  by (induction xs arbitrary: st) (simp_all add: visit_pair_add_folders)

lemma fold_visit_view:
  "fold (visit_view a) vs st = fold visit_pair (map (Pair a) vs) st"
  by (induction vs arbitrary: st) (simp_all add: visit_pair_def)

lemma visit_window_pairs:
  "visit_window w st = fold add_folder (folders w) (fold visit_pair (window_pairs w) st)"
  by (simp add: visit_window_def fold_visit_view visit_pairs_add_folders window_pairs_def)

lemma fold_visit_window:
  "fold visit_window ws st =
     fold add_folder (concat (map folders ws)) (fold visit_pair (concat (map window_pairs ws)) st)"
proof (induction ws arbitrary: st)
  case Nil
  show ?case by simp
next
  case (Cons w ws)
  have "fold visit_window (w # ws) st = fold visit_window ws (visit_window w st)"
    by simp
  also have "\<dots> = fold add_folder (concat (map folders ws))
                      (fold visit_pair (concat (map window_pairs ws)) (visit_window w st))"
    by (rule Cons.IH)
  also have "\<dots> = fold add_folder (concat (map folders (w # ws)))
                      (fold visit_pair (concat (map window_pairs (w # ws))) st)"
    by (simp add: visit_window_pairs visit_pairs_add_folders)
  finally show ?case .
qed

lemma scan_windows_flat:
  "scan_windows ws =
     fold add_folder (concat (map folders (rev ws))) (fold visit_pair (enumeration ws) initial_state)"
  by (simp add: scan_windows_def fold_visit_window enumeration_def)

subsection \<open>Fields the loops leave alone\<close>

lemma add_folder_files [simp]:
  "active_files (add_folder f st) = active_files st"
  "other_files (add_folder f st) = other_files st"
  "seen_files (add_folder f st) = seen_files st"
  by (simp_all add: add_folder_def)

lemma add_folders_files [simp]:
  "active_files (fold add_folder fs st) = active_files st"
  "other_files (fold add_folder fs st) = other_files st"
  "seen_files (fold add_folder fs st) = seen_files st"
  by (induction fs arbitrary: st) simp_all

lemma visit_pair_folders [simp]: "project_folders (visit_pair x st) = project_folders st"
  by (simp add: visit_pair_def visit_view_def Let_def split: option.splits)

lemma visit_pairs_folders [simp]: "project_folders (fold visit_pair xs st) = project_folders st"
  by (induction xs arbitrary: st) simp_all

subsection \<open>Project folders\<close>

lemma set_keep_first [simp]: "set (keep_first xs) = set xs"
  by (induction xs) auto

lemma distinct_keep_first [simp]: "distinct (keep_first xs)"
  by (induction xs) auto

lemma keep_first_append:
  "keep_first (xs @ ys) = keep_first xs @ filter (\<lambda>y. y \<notin> set xs) (keep_first ys)"
proof (induction xs)
  case Nil
  show ?case by simp
next
  case (Cons x xs)
  have "filter (\<lambda>y. y \<noteq> x) (filter (\<lambda>y. y \<notin> set xs) (keep_first ys))
          = filter (\<lambda>y. y \<notin> set (x # xs)) (keep_first ys)"
    by (auto intro: filter_cong)
  with Cons show ?case by simp
qed

lemma add_folders_result:
  "project_folders (fold add_folder fs st) =
     project_folders st @ filter (\<lambda>f. f \<notin> set (project_folders st)) (keep_first fs)"
proof (induction fs arbitrary: st)
  case Nil
  show ?case by simp
next
  case (Cons f fs)
  show ?case
  proof (cases "f \<in> set (project_folders st)")
    case True
    then have "add_folder f st = st" by (simp add: add_folder_def)
    moreover have "filter (\<lambda>g. g \<notin> set (project_folders st)) (filter (\<lambda>y. y \<noteq> f) (keep_first fs))
                     = filter (\<lambda>g. g \<notin> set (project_folders st)) (keep_first fs)"
      using True by (auto intro: filter_cong)
    ultimately show ?thesis using True by (simp add: Cons.IH)
  next
    case False
    then have "project_folders (add_folder f st) = project_folders st @ [f]"
      by (simp add: add_folder_def)
    moreover have "filter (\<lambda>g. g \<notin> set (project_folders st)) (filter (\<lambda>y. y \<noteq> f) (keep_first fs))
                     = filter (\<lambda>g. g \<notin> set (project_folders st @ [f])) (keep_first fs)"
      by (auto intro: filter_cong)
    ultimately show ?thesis using False by (simp add: Cons.IH)
  qed
qed

lemma scan_windows_folders:
  "project_folders (scan_windows ws) = keep_first (concat (map folders (rev ws)))"
  by (simp add: scan_windows_flat add_folders_result initial_state_def)

subsection \<open>One step of the loop over the views\<close>

lemma entry_path_file_obj [simp]: "entry_path (file_obj p v) = PyStr p"
  by (simp add: entry_path_def file_obj_def dict_get_def)

lemma entry_selection_file_obj [simp]: "entry_selection (file_obj p v) = selection_info v"
  by (simp add: entry_selection_def file_obj_def dict_get_def)

lemma visit_pair_skip:
  "file_name (snd x) = None \<or> file_name (snd x) = Some [] \<or>
   (\<exists>f. file_name (snd x) = Some f \<and> f \<in> seen_files st) \<Longrightarrow> visit_pair x st = st"
  by (auto simp: visit_pair_def visit_view_def split: option.splits)

lemma visit_pair_take:
  assumes "file_name (snd x) = Some f" "f \<noteq> []" "f \<notin> seen_files st"
  shows "seen_files (visit_pair x st) = insert f (seen_files st)"
    and "active_files (visit_pair x st) =
           active_files st @ (if fst x = Some f then [file_obj f (snd x)] else [])"
    and "other_files (visit_pair x st) =
           other_files st @ (if fst x = Some f then [] else [file_obj f (snd x)])"
  using assms by (auto simp: visit_pair_def visit_view_def Let_def)

lemma visit_pair_cases:
  obtains (skip) "visit_pair x st = st"
          "file_name (snd x) = None \<or> file_name (snd x) = Some [] \<or>
             (\<exists>f. file_name (snd x) = Some f \<and> f \<in> seen_files st)"
        | (take) f where "file_name (snd x) = Some f" "f \<noteq> []" "f \<notin> seen_files st"
  using visit_pair_skip [of x st] by (cases "file_name (snd x)") auto

subsection \<open>The files seen\<close>

lemma named_Nil [simp]: "named [] = {}"
  by (simp add: named_def)

lemma named_append [simp]: "named (xs @ ys) = named xs \<union> named ys"
  by (auto simp: named_def)

lemma seen_visit_pair:
  "seen_files (visit_pair x st) = seen_files st \<union> named [x]"
  by (cases x st rule: visit_pair_cases) (auto simp: visit_pair_take named_def)

lemma seen_visit_pairs:
  "seen_files (fold visit_pair xs st) = seen_files st \<union> named xs"
proof (induction xs arbitrary: st)
  case Nil
  show ?case by simp
next
  case (Cons x xs)
  have "named (x # xs) = named [x] \<union> named xs"
    using named_append [of "[x]" xs] by simp
  then show ?case by (auto simp: Cons.IH seen_visit_pair)
qed

subsection \<open>The file objects for one path\<close>

lemma entries_for_append [simp]: "entries_for p (es @ fs) = entries_for p es @ entries_for p fs"
  by (simp add: entries_for_def)

lemma entries_for_file_obj [simp]:
  "entries_for p [file_obj f v] = (if f = p then [file_obj f v] else [])"
  by (simp add: entries_for_def)

lemma entries_for_Nil [simp]: "entries_for p [] = []"
  by (simp add: entries_for_def)

text \<open>Once a path is in the seen set, no file object for it is appended.\<close>

lemma seen_path_stays:
  assumes "p \<in> seen_files st"
  shows "entries_for p (active_files (fold visit_pair xs st)) = entries_for p (active_files st)
       \<and> entries_for p (other_files (fold visit_pair xs st)) = entries_for p (other_files st)"
  using assms
proof (induction xs arbitrary: st)
  case Nil
  show ?case by simp
next
  case (Cons x xs)
  show ?case
  proof (cases x st rule: visit_pair_cases)
    case skip
    with Cons show ?thesis by simp
  next
    case (take f)
    then have "f \<noteq> p" using Cons.prems by auto
    moreover have "p \<in> seen_files (visit_pair x st)"
      using Cons.prems by (simp add: seen_visit_pair)
    ultimately show ?thesis
      using Cons.IH [of "visit_pair x st"] by (simp add: visit_pair_take [OF take])
  qed
qed

text \<open>
  A path not yet seen gets its file object from the first view that holds it, in the list
  that view's window decides.
\<close>

lemma unseen_path_first:
  assumes "p \<noteq> []" "p \<notin> seen_files st"
  shows "entries_for p (active_files (fold visit_pair xs st)) =
           entries_for p (active_files st) @ first_entry p True xs
       \<and> entries_for p (other_files (fold visit_pair xs st)) =
           entries_for p (other_files st) @ first_entry p False xs"
  using assms
proof (induction xs arbitrary: st)
  case Nil
  show ?case by (simp add: first_entry_def)
next
  case (Cons x xs)
  show ?case
  proof (cases "file_name (snd x) = Some p")
    case True
    have seen: "p \<in> seen_files (visit_pair x st)"
      using True Cons.prems by (simp add: visit_pair_take)
    show ?thesis
      using seen_path_stays [OF seen, of xs] True Cons.prems
      by (simp add: visit_pair_take first_entry_def)
  next
    case False
    have unseen: "p \<notin> seen_files (visit_pair x st)"
      using False Cons.prems by (auto simp: seen_visit_pair named_def)
    have same: "entries_for p (active_files (visit_pair x st)) = entries_for p (active_files st)
              \<and> entries_for p (other_files (visit_pair x st)) = entries_for p (other_files st)"
    proof (cases x st rule: visit_pair_cases)
      case skip
      then show ?thesis by simp
    next
      case (take f)
      then have "f \<noteq> p" using False by auto
      then show ?thesis by (simp add: visit_pair_take [OF take])
    qed
    have "first_entry p act (x # xs) = first_entry p act xs" for act
      using False by (simp add: first_entry_def)
    then show ?thesis
      using Cons.IH [OF Cons.prems(1) unseen] same by simp
  qed
qed

text \<open>Every file object is the one of some view visited, for that view's file.\<close>

lemma entries_from_views:
  assumes "e \<in> set (active_files (fold visit_pair xs st)) \<union> set (other_files (fold visit_pair xs st))"
  shows "e \<in> set (active_files st) \<union> set (other_files st)
       \<or> (\<exists>x \<in> set xs. \<exists>p. file_name (snd x) = Some p \<and> p \<noteq> [] \<and> e = file_obj p (snd x))"
  using assms
proof (induction xs arbitrary: st)
  case Nil
  then show ?case by simp
next
  case (Cons x xs)
  from Cons.IH [of "visit_pair x st"] Cons.prems
  consider "e \<in> set (active_files (visit_pair x st)) \<union> set (other_files (visit_pair x st))"
    | "\<exists>y \<in> set xs. \<exists>p. file_name (snd y) = Some p \<and> p \<noteq> [] \<and> e = file_obj p (snd y)"
    by auto
  then show ?case
  proof cases
    case 1
    show ?thesis
    proof (cases x st rule: visit_pair_cases)
      case skip
      with 1 show ?thesis by simp
    next
      case (take f)
      with 1 show ?thesis
        by (auto simp: visit_pair_take [OF take] split: if_splits)
    qed
  next
    case 2
    then show ?thesis by auto
  qed
qed

subsection \<open>Reading the snapshot\<close>

lemma snapshot_active [simp]:
  "snapshot_list ''activeFiles'' (get_state_snapshot ws now) = active_files (scan_windows ws)"
  by (simp add: snapshot_list_def get_state_snapshot_def Let_def)

lemma snapshot_other [simp]:
  "snapshot_list ''otherFiles'' (get_state_snapshot ws now) = other_files (scan_windows ws)"
  by (simp add: snapshot_list_def get_state_snapshot_def Let_def)

lemma snapshot_folders [simp]:
  "snapshot_list ''projectFolders'' (get_state_snapshot ws now) =
     map PyStr (project_folders (scan_windows ws))"
  by (simp add: snapshot_list_def get_state_snapshot_def Let_def)

lemma scan_windows_active:
  "active_files (scan_windows ws) = active_files (fold visit_pair (enumeration ws) initial_state)"
  by (simp add: scan_windows_flat)

lemma scan_windows_other:
  "other_files (scan_windows ws) = other_files (fold visit_pair (enumeration ws) initial_state)"
  by (simp add: scan_windows_flat)

lemma in_enumeration:
  "x \<in> set (enumeration ws) \<longleftrightarrow>
     (\<exists>w \<in> set ws. \<exists>v \<in> set (views w). x = (active_file_in_window w, v))"
  by (auto simp: enumeration_def window_pairs_def)

lemma scan_entries_for:
  assumes "p \<noteq> []"
  shows "entries_for p (active_files (scan_windows ws)) = first_entry p True (enumeration ws)"
    and "entries_for p (other_files (scan_windows ws)) = first_entry p False (enumeration ws)"
  using unseen_path_first [of p initial_state "enumeration ws"] assms
  by (simp_all add: scan_windows_active scan_windows_other initial_state_def)

lemma scan_entries_from_views:
  assumes "e \<in> set (active_files (scan_windows ws) @ other_files (scan_windows ws))"
  shows "\<exists>w \<in> set ws. \<exists>v \<in> set (views w). \<exists>q. file_name v = Some q \<and> q \<noteq> [] \<and> e = file_obj q v"
proof -
  from assms entries_from_views [of e "enumeration ws" initial_state]
  obtain x q where "x \<in> set (enumeration ws)" "file_name (snd x) = Some q" "q \<noteq> []"
      "e = file_obj q (snd x)"
    by (auto simp: scan_windows_active scan_windows_other initial_state_def)
  then show ?thesis unfolding in_enumeration by fastforce
qed

lemma first_view_exists:
  assumes "w \<in> set ws" "v \<in> set (views w)" "file_name v = Some p"
  shows "\<exists>x. first_view p ws = Some x"
proof -
  have "(active_file_in_window w, v) \<in> set (enumeration ws)"
    using assms by (auto simp: in_enumeration)
  then have "find (\<lambda>x. file_name (snd x) = Some p) (enumeration ws) \<noteq> None"
    using assms(3) by (auto simp: find_None_iff)
  then show ?thesis by (auto simp: first_view_def)
qed

subsection \<open>A view that comes after another one with the same file\<close>

lemma later_view_ignored:
  assumes "file_name (snd x) = Some p" "p \<in> seen_files st \<union> named xs \<or> p = []"
  shows "fold visit_pair (xs @ x # ys) st = fold visit_pair (xs @ ys) st"
proof -
  have "visit_pair x (fold visit_pair xs st) = fold visit_pair xs st"
    using assms by (intro visit_pair_skip) (auto simp: seen_visit_pairs)
  then show ?thesis by simp
qed

lemma window_pairs_without_view:
  "window_pairs (w\<lparr>views := vs\<rparr>) = map (Pair (active_file_in_window w)) vs"
  by (simp add: window_pairs_def active_file_in_window_def)

lemma scan_without_later_view:
  assumes "file_name u = Some p" "views w = vs1 @ u # vs2"
      and "(\<exists>w0 \<in> set ws2. \<exists>v0 \<in> set (views w0). file_name v0 = Some p)
           \<or> (\<exists>v0 \<in> set vs1. file_name v0 = Some p)"
  shows "scan_windows (ws1 @ w\<lparr>views := vs1 @ vs2\<rparr> # ws2) = scan_windows (ws1 @ w # ws2)"
proof -
  let ?a = "active_file_in_window w"
  let ?before = "enumeration ws2 @ map (Pair ?a) vs1"
  let ?after = "map (Pair ?a) vs2 @ enumeration ws1"
  have whole: "enumeration (ws1 @ w # ws2) = ?before @ (?a, u) # ?after"
    using assms(2) by (simp add: enumeration_def window_pairs_def)
  have less: "enumeration (ws1 @ w\<lparr>views := vs1 @ vs2\<rparr> # ws2) = ?before @ ?after"
    by (simp add: enumeration_def window_pairs_without_view)
  have "\<exists>x \<in> set ?before. file_name (snd x) = Some p"
    using assms(3)
  proof
    assume "\<exists>w0 \<in> set ws2. \<exists>v0 \<in> set (views w0). file_name v0 = Some p"
    then obtain w0 v0 where "w0 \<in> set ws2" "v0 \<in> set (views w0)" "file_name v0 = Some p"
      by blast
    then have "(active_file_in_window w0, v0) \<in> set (enumeration ws2)"
        "file_name (snd (active_file_in_window w0, v0)) = Some p"
      unfolding in_enumeration by auto
    then show ?thesis by (metis Un_iff set_append)
  next
    assume "\<exists>v0 \<in> set vs1. file_name v0 = Some p"
    then obtain v0 where "v0 \<in> set vs1" "file_name v0 = Some p" by blast
    then have "(?a, v0) \<in> set (map (Pair ?a) vs1)" "file_name (snd (?a, v0)) = Some p"
      by auto
    then show ?thesis by (metis Un_iff set_append)
  qed
  then have "p \<in> named ?before \<or> p = []"
    unfolding named_def by blast
  then have "fold visit_pair (?before @ (?a, u) # ?after) initial_state
               = fold visit_pair (?before @ ?after) initial_state"
    using assms(1) by (intro later_view_ignored [where p = p]) auto
  then show ?thesis
    by (simp only: scan_windows_flat whole less) simp
qed

subsection \<open>One active file per window, frontmost window first\<close>

lemma window_active_done:
  assumes "a = None \<or> (\<exists>p. a = Some p \<and> p \<in> seen_files st)"
  shows "active_files (fold visit_pair (map (Pair a) vs) st) = active_files st"
  using assms
proof (induction vs arbitrary: st)
  case Nil
  show ?case by simp
next
  case (Cons v vs)
  show ?case
  proof (cases "(a, v)" st rule: visit_pair_cases)
    case skip
    with Cons show ?thesis by simp
  next
    case (take f)
    have "a \<noteq> Some f" using take Cons.prems by auto
    then have "active_files (visit_pair (a, v) st) = active_files st"
      by (simp add: visit_pair_take [OF take])
    moreover have "a = None \<or> (\<exists>p. a = Some p \<and> p \<in> seen_files (visit_pair (a, v) st))"
      using Cons.prems by (auto simp: seen_visit_pair)
    ultimately show ?thesis using Cons.IH by simp
  qed
qed

lemma window_active_at_most_one:
  "\<exists>L. active_files (fold visit_pair (map (Pair a) vs) st) = active_files st @ L
       \<and> (L = [] \<or> (\<exists>p v. a = Some p \<and> L = [file_obj p v]))"
proof (induction vs arbitrary: st)
  case Nil
  show ?case by simp
next
  case (Cons v vs)
  show ?case
  proof (cases "(a, v)" st rule: visit_pair_cases)
    case skip
    with Cons show ?thesis by simp
  next
    case (take f)
    show ?thesis
    proof (cases "a = Some f")
      case True
      have "f \<in> seen_files (visit_pair (a, v) st)"
        by (simp add: visit_pair_take [OF take])
      with True have "active_files (fold visit_pair (map (Pair a) vs) (visit_pair (a, v) st))
                        = active_files (visit_pair (a, v) st)"
        by (intro window_active_done) auto
      moreover have "active_files (visit_pair (a, v) st) = active_files st @ [file_obj f v]"
        using visit_pair_take(2) [OF take] True by simp
      ultimately have "active_files (fold visit_pair (map (Pair a) (v # vs)) st)
                         = active_files st @ [file_obj f v]"
        by simp
      with True show ?thesis by blast
    next
      case False
      then have "active_files (visit_pair (a, v) st) = active_files st"
        by (simp add: visit_pair_take [OF take])
      with Cons.IH [of "visit_pair (a, v) st"] show ?thesis by simp
    qed
  qed
qed

lemma windows_active_subseq:
  "\<exists>L. active_files (fold visit_pair (concat (map window_pairs ws)) st) = active_files st @ L
       \<and> subseq (map entry_path L) (map PyStr (List.map_filter active_file_in_window ws))"
proof (induction ws arbitrary: st)
  case Nil
  show ?case by simp
next
  case (Cons w ws)
  let ?st1 = "fold visit_pair (window_pairs w) st"
  obtain L1 where L1: "active_files ?st1 = active_files st @ L1"
      "L1 = [] \<or> (\<exists>p v. active_file_in_window w = Some p \<and> L1 = [file_obj p v])"
    using window_active_at_most_one [of "active_file_in_window w" "views w" st]
    by (auto simp: window_pairs_def)
  obtain L2 where L2: "active_files (fold visit_pair (concat (map window_pairs ws)) ?st1)
                         = active_files ?st1 @ L2"
      "subseq (map entry_path L2) (map PyStr (List.map_filter active_file_in_window ws))"
    using Cons.IH [of ?st1] by blast
  have "subseq (map entry_path (L1 @ L2))
          (map PyStr (List.map_filter active_file_in_window (w # ws)))"
    using L1(2) L2(2) by (auto split: option.splits)
  with L1(1) L2(1) show ?case by simp
qed

lemma scan_active_subseq:
  "subseq (map entry_path (active_files (scan_windows ws)))
     (map PyStr (List.map_filter active_file_in_window (rev ws)))"
  using windows_active_subseq [of "rev ws" initial_state]
  by (auto simp: scan_windows_active enumeration_def initial_state_def)

lemma subseq_pair:
  assumes "subseq xs [a, b]" "a \<in> set xs" "b \<in> set xs" "a \<noteq> b"
  shows "xs = [a, b]"
proof (cases xs)
  case Nil
  with assms show ?thesis by simp
next
  case (Cons x xs')
  show ?thesis
  proof (cases "x = a")
    case True
    with assms Cons have "subseq xs' [b]" by simp
    then have "xs' = [] \<or> xs' = [b]"
      by (cases xs') (auto split: if_splits)
    with assms Cons True show ?thesis by auto
  next
    case False
    with assms Cons have "subseq (x # xs') [b]" by simp
    then have "x = b \<and> xs' = []" by (auto split: if_splits)
    with assms Cons False show ?thesis by auto
  qed
qed

lemma snapshot_files_scan:
  "snapshot_files (get_state_snapshot ws now) =
     active_files (scan_windows ws) @ other_files (scan_windows ws)"
  by (simp add: snapshot_files_def)

lemma first_entry_found:
  "first_view p ws = Some x \<Longrightarrow>
     first_entry p act (enumeration ws) =
       (if (fst x = Some p) = act then [file_obj p (snd x)] else [])"
  by (simp add: first_entry_def first_view_def)

lemma path_once:
  assumes "p \<noteq> []" "first_view p ws = Some x"
  shows "entries_for p (snapshot_files (get_state_snapshot ws now)) = [file_obj p (snd x)]"
    and "entries_for p (snapshot_list ''activeFiles'' (get_state_snapshot ws now)) =
             (if fst x = Some p then [file_obj p (snd x)] else [])"
    and "entries_for p (snapshot_list ''otherFiles'' (get_state_snapshot ws now)) =
             (if fst x = Some p then [] else [file_obj p (snd x)])"
  by (simp_all add: snapshot_files_scan scan_entries_for [OF assms(1)]
        first_entry_found [OF assms(2)])

lemma snapshot_entry_view:
  assumes "e \<in> set (snapshot_files (get_state_snapshot ws now))"
  shows "\<exists>w \<in> set ws. \<exists>v \<in> set (views w). \<exists>q. file_name v = Some q \<and> q \<noteq> [] \<and> e = file_obj q v"
  using assms scan_entries_from_views [of e ws] by (simp add: snapshot_files_scan)

lemma path_absent:
  assumes "\<forall>w \<in> set ws. \<forall>v \<in> set (views w). file_name v \<noteq> Some p"
  shows "entries_for p (snapshot_files (get_state_snapshot ws now)) = []"
proof -
  have "entry_path e \<noteq> PyStr p" if mem: "e \<in> set (snapshot_files (get_state_snapshot ws now))" for e
  proof -
    obtain w v q where "w \<in> set ws" "v \<in> set (views w)" "file_name v = Some q" "e = file_obj q v"
      using snapshot_entry_view [OF mem] by blast
    with assms show ?thesis by auto
  qed
  then show ?thesis by (simp add: entries_for_def)
qed

lemmas session_defs =
  front_window_def back_window_def third_window_def view_a_def view_b_def view_unsaved_def
  view_a_again_def view_c_def

lemma session_enumeration:
  "enumeration [back_window, front_window] =
     [(Some ''/p/b.py'', view_a), (Some ''/p/b.py'', view_unsaved), (Some ''/p/b.py'', view_b),
      (Some ''/p/a.py'', view_a_again), (Some ''/p/a.py'', view_c)]"
  by (simp add: enumeration_def window_pairs_def active_file_in_window_def front_window_def
        back_window_def view_b_def view_a_again_def)

lemma session_names:
  "file_name view_a = Some ''/p/a.py''" "file_name view_b = Some ''/p/b.py''"
  "file_name view_unsaved = None" "file_name view_a_again = Some ''/p/a.py''"
  "file_name view_c = Some ''/q/c.py''"
  by (simp_all add: session_defs)

lemma session_views:
  "views front_window = [view_a, view_unsaved, view_b]"
  "views back_window = [view_a_again, view_c]"
  by (simp_all add: session_defs)

subsection \<open>Each path once\<close>

text \<open>
  Claim C2. A path (a non-empty string) that at least one view holds has exactly one file
  object in \<open>activeFiles\<close> and \<open>otherFiles\<close> together; it is the one of the first view
  of the enumeration that holds the path, and it is in \<open>activeFiles\<close> exactly when the path
  is the active file of that view's window. A path no view holds has no file object, and
  every file object carries the non-empty file name of some view, so a view without a file
  gives none.
\<close>

theorem dedup_invariant:
  "(p \<noteq> [] \<and> (\<exists>w \<in> set ws. \<exists>v \<in> set (views w). file_name v = Some p) \<longrightarrow>
      (\<exists>x. first_view p ws = Some x
         \<and> entries_for p (snapshot_files (get_state_snapshot ws now)) = [file_obj p (snd x)]
         \<and> entries_for p (snapshot_list ''activeFiles'' (get_state_snapshot ws now)) =
             (if fst x = Some p then [file_obj p (snd x)] else [])
         \<and> entries_for p (snapshot_list ''otherFiles'' (get_state_snapshot ws now)) =
             (if fst x = Some p then [] else [file_obj p (snd x)])))
   \<and> ((\<forall>w \<in> set ws. \<forall>v \<in> set (views w). file_name v \<noteq> Some p) \<longrightarrow>
        entries_for p (snapshot_files (get_state_snapshot ws now)) = [])
   \<and> (\<forall>e \<in> set (snapshot_files (get_state_snapshot ws now)).
        \<exists>w \<in> set ws. \<exists>v \<in> set (views w). \<exists>q.
          file_name v = Some q \<and> q \<noteq> [] \<and> entry_path e = PyStr q)"
proof (intro conjI impI ballI)
  assume "p \<noteq> [] \<and> (\<exists>w \<in> set ws. \<exists>v \<in> set (views w). file_name v = Some p)"
  then obtain x where x: "first_view p ws = Some x" and p: "p \<noteq> []"
    using first_view_exists by blast
  show "\<exists>x. first_view p ws = Some x
         \<and> entries_for p (snapshot_files (get_state_snapshot ws now)) = [file_obj p (snd x)]
         \<and> entries_for p (snapshot_list ''activeFiles'' (get_state_snapshot ws now)) =
             (if fst x = Some p then [file_obj p (snd x)] else [])
         \<and> entries_for p (snapshot_list ''otherFiles'' (get_state_snapshot ws now)) =
             (if fst x = Some p then [] else [file_obj p (snd x)])"
    using x path_once [OF p x] by blast
next
  fix e
  assume "e \<in> set (snapshot_files (get_state_snapshot ws now))"
  then obtain w v q where "w \<in> set ws" "v \<in> set (views w)" "file_name v = Some q" "q \<noteq> []"
      "e = file_obj q v"
    using snapshot_entry_view by blast
  then show "\<exists>w \<in> set ws. \<exists>v \<in> set (views w). \<exists>q.
          file_name v = Some q \<and> q \<noteq> [] \<and> entry_path e = PyStr q"
    using entry_path_file_obj by blast
next
  assume "\<forall>w \<in> set ws. \<forall>v \<in> set (views w). file_name v \<noteq> Some p"
  then show "entries_for p (snapshot_files (get_state_snapshot ws now)) = []"
    by (rule path_absent)
qed

text \<open>
  Claim C2 on the small session: \<open>a.py\<close> is first met in the frontmost window, where it is
  not the active file, so its only file object is in \<open>otherFiles\<close>, although it is the
  active file of the other window.
\<close>

theorem dedup_invariant_witness:
  "''/p/a.py'' \<noteq> []
   \<and> (\<exists>w \<in> set [back_window, front_window]. \<exists>v \<in> set (views w). file_name v = Some ''/p/a.py'')
   \<and> first_view ''/p/a.py'' [back_window, front_window] = Some (Some ''/p/b.py'', view_a)
   \<and> entries_for ''/p/a.py''
        (snapshot_list ''activeFiles'' (get_state_snapshot [back_window, front_window] ''T'')) = []
   \<and> entries_for ''/p/a.py''
        (snapshot_list ''otherFiles'' (get_state_snapshot [back_window, front_window] ''T''))
        = [file_obj ''/p/a.py'' view_a]
   \<and> entries_for ''/p/x.py''
        (snapshot_files (get_state_snapshot [back_window, front_window] ''T'')) = []"
  using dedup_invariant [of "''/p/a.py''" "[back_window, front_window]" "''T''"]
    dedup_invariant [of "''/p/x.py''" "[back_window, front_window]" "''T''"]
  by (simp add: first_view_def session_enumeration session_names session_views)

subsection \<open>The shape of a selection\<close>

lemma selection_first_region:
  "sel v = reg # rest \<Longrightarrow> selection_info v = selection_info (v\<lparr>sel := [reg]\<rparr>)"
  by (simp add: selection_info_def)

lemma selection_of_entry:
  assumes "p \<noteq> []" "first_view p ws = Some x"
  shows "map entry_selection (entries_for p (snapshot_files (get_state_snapshot ws now)))
           = [selection_info (snd x)]"
  by (simp add: path_once(1) [OF assms])

text \<open>
  Claim C3. A view without selection regions has the selection \<open>None\<close>; an empty first
  region at row \<open>r\<close>, column \<open>c\<close> gives \<open>{"cursor": {"line": r + 1, "column": c}}\<close>; a
  non-empty first region from \<open>(r1, c1)\<close> to \<open>(r2, c2)\<close> gives \<open>start\<close> and \<open>end\<close> with
  the lines one higher and the columns as they are; the regions after the first change
  nothing; and the file object of a path in the snapshot carries this selection of the view
  it was made from.
\<close>

theorem selection_shape:
  "(sel v = [] \<longrightarrow> selection_info v = PyNone)
   \<and> (\<forall>reg rest r c.
        sel v = reg # rest \<and> region_empty reg \<and> rowcol v (region_begin reg) = (r, c) \<longrightarrow>
        selection_info v =
          PyDict [(''cursor'', PyDict [(''line'', PyInt (r + 1)), (''column'', PyInt c)])])
   \<and> (\<forall>reg rest r1 c1 r2 c2.
        sel v = reg # rest \<and> \<not> region_empty reg \<and> rowcol v (region_begin reg) = (r1, c1)
          \<and> rowcol v (region_end reg) = (r2, c2) \<longrightarrow>
        selection_info v =
          PyDict [(''start'', PyDict [(''line'', PyInt (r1 + 1)), (''column'', PyInt c1)]),
                  (''end'', PyDict [(''line'', PyInt (r2 + 1)), (''column'', PyInt c2)])])
   \<and> (\<forall>reg rest. sel v = reg # rest \<longrightarrow> selection_info v = selection_info (v\<lparr>sel := [reg]\<rparr>))
   \<and> (\<forall>x. p \<noteq> [] \<and> first_view p ws = Some x \<longrightarrow>
        map entry_selection (entries_for p (snapshot_files (get_state_snapshot ws now)))
          = [selection_info (snd x)])"
proof (intro conjI allI impI)
  show "selection_info v = selection_info (v\<lparr>sel := [reg]\<rparr>)" if "sel v = reg # rest" for reg rest
    using that by (rule selection_first_region)
  show "map entry_selection (entries_for p (snapshot_files (get_state_snapshot ws now)))
          = [selection_info (snd x)]" if "p \<noteq> [] \<and> first_view p ws = Some x" for x
    using that selection_of_entry by blast
qed (auto simp: selection_info_def)

text \<open>
  Claim C3 on the examples of the specification: an empty region at row 3, column 5, and a
  region from row 0, column 0 to row 1, column 2 (with a second region after it).
\<close>

theorem selection_shape_witness:
  "selection_info \<lparr>file_name = Some ''/p/a.py'', sel = [Region 29 29], rowcol = grid\<rparr>
     = PyDict [(''cursor'', PyDict [(''line'', PyInt 4), (''column'', PyInt 5)])]
   \<and> selection_info \<lparr>file_name = Some ''/p/b.py'', sel = [Region 10 0, Region 3 3], rowcol = grid\<rparr>
     = PyDict [(''start'', PyDict [(''line'', PyInt 1), (''column'', PyInt 0)]),
               (''end'', PyDict [(''line'', PyInt 2), (''column'', PyInt 2)])]
   \<and> selection_info \<lparr>file_name = None, sel = [], rowcol = grid\<rparr> = PyNone
   \<and> map entry_selection
        (entries_for ''/p/a.py'' (snapshot_files (get_state_snapshot [back_window, front_window] ''T'')))
       = [PyDict [(''cursor'', PyDict [(''line'', PyInt 4), (''column'', PyInt 5)])]]"
  using
    selection_shape [of "\<lparr>file_name = Some ''/p/a.py'', sel = [Region 29 29], rowcol = grid\<rparr>"
      "''/p/a.py''" "[back_window, front_window]" "''T''"]
    selection_shape [of "\<lparr>file_name = Some ''/p/b.py'', sel = [Region 10 0, Region 3 3], rowcol = grid\<rparr>"
      "''/p/a.py''" "[back_window, front_window]" "''T''"]
    selection_shape [of "\<lparr>file_name = None, sel = [], rowcol = grid\<rparr>"
      "''/p/a.py''" "[back_window, front_window]" "''T''"]
  by (simp add: first_view_def session_enumeration session_names grid_def view_a_def)

subsection \<open>Frontmost window first\<close>

lemma find_two_lists:
  "find P (xs @ ys) = (case find P xs of None \<Rightarrow> find P ys | Some x \<Rightarrow> Some x)"
  by (induction xs) simp_all

lemma find_in_window:
  assumes "find (\<lambda>x. file_name (snd x) = Some p) (window_pairs w) = Some x"
  shows "fst x = active_file_in_window w"
proof -
  from assms have "x \<in> set (window_pairs w)"
    by (auto simp: find_Some_iff)
  then show ?thesis by (auto simp: window_pairs_def)
qed

lemma find_window_some:
  assumes "v \<in> set (views w)" "file_name v = Some p"
  shows "\<exists>x. find (\<lambda>x. file_name (snd x) = Some p) (window_pairs w) = Some x"
proof -
  have "(active_file_in_window w, v) \<in> set (window_pairs w)"
    using assms(1) by (simp add: window_pairs_def)
  then have "find (\<lambda>x. file_name (snd x) = Some p) (window_pairs w) \<noteq> None"
    using assms(2) by (auto simp: find_None_iff)
  then show ?thesis by auto
qed

lemma find_window_none:
  assumes "\<forall>v \<in> set (views w). file_name v \<noteq> Some p"
  shows "find (\<lambda>x. file_name (snd x) = Some p) (window_pairs w) = None"
  using assms by (auto simp: find_None_iff window_pairs_def)

lemma active_path_listed:
  assumes "p \<noteq> []" "first_view p ws = Some x" "fst x = Some p"
  shows "PyStr p \<in> set (map entry_path (snapshot_list ''activeFiles'' (get_state_snapshot ws now)))"
proof -
  have "entries_for p (snapshot_list ''activeFiles'' (get_state_snapshot ws now))
          = [file_obj p (snd x)]"
    using path_once(2) [OF assms(1,2)] assms(3) by simp
  then have "file_obj p (snd x)
               \<in> set (entries_for p (snapshot_list ''activeFiles'' (get_state_snapshot ws now)))"
    by simp
  then have "file_obj p (snd x) \<in> set (snapshot_list ''activeFiles'' (get_state_snapshot ws now))"
    unfolding entries_for_def by simp
  then have "entry_path (file_obj p (snd x))
               \<in> entry_path ` set (snapshot_list ''activeFiles'' (get_state_snapshot ws now))"
    by (rule imageI)
  then show ?thesis by (simp del: snapshot_active)
qed

lemma two_windows_active:
  assumes "active_file_in_window w1 = Some a1" "active_file_in_window w2 = Some a2"
      and "a1 \<noteq> []" "a2 \<noteq> []"
      and "\<exists>v \<in> set (views w1). file_name v = Some a1"
      and "\<exists>v \<in> set (views w2). file_name v = Some a2"
      and "\<forall>v \<in> set (views w1). file_name v \<noteq> Some a2"
  shows "map entry_path (snapshot_list ''activeFiles'' (get_state_snapshot [w2, w1] now))
           = [PyStr a1, PyStr a2]"
proof -
  let ?paths = "map entry_path (snapshot_list ''activeFiles'' (get_state_snapshot [w2, w1] now))"
  have enum: "enumeration [w2, w1] = window_pairs w1 @ window_pairs w2"
    by (simp add: enumeration_def)
  obtain x where x: "find (\<lambda>x. file_name (snd x) = Some a1) (window_pairs w1) = Some x"
    using assms(5) find_window_some by blast
  then have "first_view a1 [w2, w1] = Some x"
    by (simp add: first_view_def enum find_two_lists)
  moreover have "fst x = Some a1"
    using find_in_window [OF x] assms(1) by simp
  ultimately have in1: "PyStr a1 \<in> set ?paths"
    using active_path_listed [OF assms(3)] by blast
  obtain y where y: "find (\<lambda>x. file_name (snd x) = Some a2) (window_pairs w2) = Some y"
    using assms(6) find_window_some by blast
  then have "first_view a2 [w2, w1] = Some y"
    using find_window_none [OF assms(7)] by (simp add: first_view_def enum find_two_lists)
  moreover have "fst y = Some a2"
    using find_in_window [OF y] assms(2) by simp
  ultimately have in2: "PyStr a2 \<in> set ?paths"
    using active_path_listed [OF assms(4)] by blast
  have "a1 \<noteq> a2" using assms(5,7) by auto
  moreover have "subseq ?paths [PyStr a1, PyStr a2]"
    using scan_active_subseq [of "[w2, w1]"] assms(1,2) by simp
  ultimately show ?thesis
    using in1 in2 by (intro subseq_pair) auto
qed

lemma two_windows_folders:
  "snapshot_list ''projectFolders'' (get_state_snapshot [w2, w1] now) =
     map PyStr (keep_first (folders w1)
                @ filter (\<lambda>f. f \<notin> set (folders w1)) (keep_first (folders w2)))"
  by (simp add: scan_windows_folders keep_first_append)

lemma distinct_folders:
  "distinct (snapshot_list ''projectFolders'' (get_state_snapshot ws now))"
  by (simp add: scan_windows_folders distinct_map inj_on_def)

text \<open>
  Claim C6. The windows are visited from the last the host lists to the first. So
  \<open>projectFolders\<close> is the folders of the windows in that order, each kept where it first
  occurs and never twice, and the paths of \<open>activeFiles\<close> follow the active files of the
  windows in that order. With two windows \<open>[w2, w1]\<close>, \<open>w1\<close> frontmost: the folders of
  \<open>w1\<close> come first, then those of \<open>w2\<close> that \<open>w1\<close> has not; and when each window shows
  its active file and \<open>w1\<close> does not show the one of \<open>w2\<close>, \<open>activeFiles\<close> is the active
  file of \<open>w1\<close>, then that of \<open>w2\<close>.
\<close>

theorem frontmost_first:
  "snapshot_list ''projectFolders'' (get_state_snapshot ws now)
     = map PyStr (keep_first (concat (map folders (rev ws))))
   \<and> distinct (snapshot_list ''projectFolders'' (get_state_snapshot ws now))
   \<and> subseq (map entry_path (snapshot_list ''activeFiles'' (get_state_snapshot ws now)))
        (map PyStr (List.map_filter active_file_in_window (rev ws)))
   \<and> (ws = [w2, w1] \<longrightarrow>
        snapshot_list ''projectFolders'' (get_state_snapshot ws now) =
          map PyStr (keep_first (folders w1)
                     @ filter (\<lambda>f. f \<notin> set (folders w1)) (keep_first (folders w2))))
   \<and> (ws = [w2, w1] \<and> active_file_in_window w1 = Some a1 \<and> active_file_in_window w2 = Some a2
        \<and> a1 \<noteq> [] \<and> a2 \<noteq> []
        \<and> (\<exists>v \<in> set (views w1). file_name v = Some a1)
        \<and> (\<exists>v \<in> set (views w2). file_name v = Some a2)
        \<and> (\<forall>v \<in> set (views w1). file_name v \<noteq> Some a2) \<longrightarrow>
        map entry_path (snapshot_list ''activeFiles'' (get_state_snapshot ws now))
          = [PyStr a1, PyStr a2])"
proof (intro conjI impI)
  show "snapshot_list ''projectFolders'' (get_state_snapshot ws now)
          = map PyStr (keep_first (concat (map folders (rev ws))))"
    by (simp add: scan_windows_folders)
  show "distinct (snapshot_list ''projectFolders'' (get_state_snapshot ws now))"
    by (rule distinct_folders)
  show "subseq (map entry_path (snapshot_list ''activeFiles'' (get_state_snapshot ws now)))
          (map PyStr (List.map_filter active_file_in_window (rev ws)))"
    using scan_active_subseq by simp
  show "snapshot_list ''projectFolders'' (get_state_snapshot ws now) =
          map PyStr (keep_first (folders w1)
                     @ filter (\<lambda>f. f \<notin> set (folders w1)) (keep_first (folders w2)))"
    if "ws = [w2, w1]"
    using that two_windows_folders by simp
  show "map entry_path (snapshot_list ''activeFiles'' (get_state_snapshot ws now))
          = [PyStr a1, PyStr a2]"
    if "ws = [w2, w1] \<and> active_file_in_window w1 = Some a1 \<and> active_file_in_window w2 = Some a2
        \<and> a1 \<noteq> [] \<and> a2 \<noteq> []
        \<and> (\<exists>v \<in> set (views w1). file_name v = Some a1)
        \<and> (\<exists>v \<in> set (views w2). file_name v = Some a2)
        \<and> (\<forall>v \<in> set (views w1). file_name v \<noteq> Some a2)"
    using that two_windows_active [of w1 a1 w2 a2 now] by blast
qed

lemma session_active:
  "active_file_in_window front_window = Some ''/p/b.py''"
  "active_file_in_window back_window = Some ''/p/a.py''"
  "active_file_in_window third_window = Some ''/q/c.py''"
  by (simp_all add: active_file_in_window_def session_defs)

lemma session_folders:
  "folders front_window = [''/q'', ''/r'']" "folders back_window = [''/p'', ''/q'']"
  "folders third_window = [''/p'']" "views third_window = [view_c]"
  by (simp_all add: session_defs)

text \<open>Claim C6 on the small session, with the second and with the third window behind.\<close>

theorem frontmost_first_witness:
  "snapshot_list ''projectFolders'' (get_state_snapshot [back_window, front_window] ''T'')
     = [PyStr ''/q'', PyStr ''/r'', PyStr ''/p'']
   \<and> map entry_path (snapshot_list ''activeFiles'' (get_state_snapshot [third_window, front_window] ''T''))
     = [PyStr ''/p/b.py'', PyStr ''/q/c.py'']"
  using frontmost_first [of "[back_window, front_window]" "''T''" back_window front_window]
    frontmost_first [of "[third_window, front_window]" "''T''" third_window front_window
      "''/p/b.py''" "''/q/c.py''"]
  by (simp add: session_active session_folders session_views session_names)

subsection \<open>The first view wins\<close>

text \<open>
  Claim C10. The one file object of a path is the one of the first view of the enumeration
  that holds the path: its path and its selection are that view's. A view whose file an
  earlier view holds (in a window visited before, or before it in its own window) can be
  taken out of its window without changing the snapshot.
\<close>

theorem first_view_wins:
  "(\<forall>x. p \<noteq> [] \<and> first_view p ws = Some x \<longrightarrow>
        entries_for p (snapshot_files (get_state_snapshot ws now)) = [file_obj p (snd x)]
      \<and> entry_path (file_obj p (snd x)) = PyStr p
      \<and> entry_selection (file_obj p (snd x)) = selection_info (snd x))
   \<and> (file_name u = Some p \<and> views w = vs1 @ u # vs2
        \<and> ((\<exists>w0 \<in> set ws2. \<exists>v0 \<in> set (views w0). file_name v0 = Some p)
           \<or> (\<exists>v0 \<in> set vs1. file_name v0 = Some p)) \<longrightarrow>
        get_state_snapshot (ws1 @ w\<lparr>views := vs1 @ vs2\<rparr> # ws2) now
          = get_state_snapshot (ws1 @ w # ws2) now)"
proof (intro conjI allI impI)
  fix x
  assume "p \<noteq> [] \<and> first_view p ws = Some x"
  then show "entries_for p (snapshot_files (get_state_snapshot ws now)) = [file_obj p (snd x)]"
    using path_once(1) by blast
next
  assume "file_name u = Some p \<and> views w = vs1 @ u # vs2
        \<and> ((\<exists>w0 \<in> set ws2. \<exists>v0 \<in> set (views w0). file_name v0 = Some p)
           \<or> (\<exists>v0 \<in> set vs1. file_name v0 = Some p))"
  then have "scan_windows (ws1 @ w\<lparr>views := vs1 @ vs2\<rparr> # ws2) = scan_windows (ws1 @ w # ws2)"
    using scan_without_later_view [of u p w vs1 vs2 ws2 ws1] by blast
  then show "get_state_snapshot (ws1 @ w\<lparr>views := vs1 @ vs2\<rparr> # ws2) now
          = get_state_snapshot (ws1 @ w # ws2) now"
    by (simp add: get_state_snapshot_def)
qed simp_all

text \<open>
  Claim C10 on the small session: \<open>a.py\<close> has the cursor of the frontmost window's view,
  not the empty selection of the second window's, and the snapshot is the same without the
  second window's view of it.
\<close>

theorem first_view_wins_witness:
  "first_view ''/p/a.py'' [back_window, front_window] = Some (Some ''/p/b.py'', view_a)
   \<and> entries_for ''/p/a.py'' (snapshot_files (get_state_snapshot [back_window, front_window] ''T''))
       = [file_obj ''/p/a.py'' view_a]
   \<and> selection_info view_a = PyDict [(''cursor'', PyDict [(''line'', PyInt 4), (''column'', PyInt 5)])]
   \<and> selection_info view_a_again = PyNone
   \<and> get_state_snapshot [back_window\<lparr>views := [view_c]\<rparr>, front_window] ''T''
       = get_state_snapshot [back_window, front_window] ''T''"
  using first_view_wins [of "''/p/a.py''" "[back_window, front_window]" "''T''" view_a_again
      back_window "[]" "[view_c]" "[front_window]" "[]"]
  by (simp add: first_view_def session_enumeration session_names session_views
        selection_info_def view_a_def view_a_again_def grid_def)

section \<open>Properties of the request handler\<close>

lemma py_get_dict: "py_get (PyDict items) key dflt = Inr (dict_get items key dflt)"
  by (simp add: py_get_def)

lemma py_get_other:
  "\<not> is_dict obj \<Longrightarrow>
     py_get obj key dflt =
       Inl (AttributeError (quoted (type_name obj) @ '' object has no attribute '' @ quoted ''get''))"
  by (cases obj) (simp_all add: py_get_def)

text \<open>
  Whatever \<open>json.loads\<close> raises, the handler of lines 124 to 136 reads the local variable
  \<open>request\<close>, which line 117 never bound, and the \<open>UnboundLocalError\<close> leaves \<open>do_POST\<close>
  with nothing sent. An exception of lines 113 and 114 is outside the \<open>try\<close>.
\<close>

lemma malformed_body_escapes:
  "do_POST ws now (Unparsable e) =
     Inl (UnboundLocalError (''local variable '' @ quoted ''request'' @ '' referenced before assignment''))
   \<and> do_POST ws now (Undecodable e) = Inl e"
  by (simp add: do_POST_def post_failure_def)

text \<open>
  Claim C1, at the body \<open>not json\<close>: the claim asks for a 500 response carrying the error
  \<open>-32603\<close> and a null id, and for no exception leaving the handler; the code sends nothing
  and raises.
\<close>

theorem malformed_body_example:
  "do_POST [] ''2026-01-01T00:00:00'' (Unparsable (JSONDecodeError ''Expecting value: line 1 column 1 (char 0)''))
     = Inl (UnboundLocalError (''local variable '' @ [CHR 0x27] @ ''request'' @ [CHR 0x27] @ '' referenced before assignment''))"
  by (simp add: do_POST_def post_failure_def quoted_def)

text \<open>
  Claim C5. A request object whose \<open>method\<close> is none of the three known ones (a missing
  \<open>method\<close> is \<open>None\<close>) gets the error \<open>-32601\<close>; the message ends with \<open>str(method)\<close>,
  which is \<open>None\<close> for a missing method and the method itself for a string; the id is the
  request's, \<open>None\<close> when it has none.
\<close>

theorem method_not_found:
  assumes "dict_get items ''method'' PyNone \<noteq> PyStr ''initialize''"
      and "dict_get items ''method'' PyNone \<noteq> PyStr ''resources/list''"
      and "dict_get items ''method'' PyNone \<noteq> PyStr ''resources/read''"
  shows "handle_mcp_request ws now (PyDict items) =
           Inr (PyDict
             [(''jsonrpc'', PyStr ''2.0''),
              (''error'', PyDict
                 [(''code'', PyInt (- 32601)),
                  (''message'', PyStr (''Method not found: '' @ py_str (dict_get items ''method'' PyNone)))]),
              (''id'', dict_get items ''id'' PyNone)])
         \<and> (map_of items ''method'' = None \<longrightarrow> py_str (dict_get items ''method'' PyNone) = ''None'')
         \<and> (\<forall>m. map_of items ''method'' = Some (PyStr m) \<longrightarrow> py_str (dict_get items ''method'' PyNone) = m)
         \<and> (map_of items ''id'' = None \<longrightarrow> dict_get items ''id'' PyNone = PyNone)
         \<and> (\<forall>i. map_of items ''id'' = Some i \<longrightarrow> dict_get items ''id'' PyNone = i)"
  using assms
  by (simp add: handle_mcp_request_def py_get_dict) (simp add: dict_get_def py_str_def)

text \<open>Claim C5 on the request \<open>{"method": "foo/bar", "id": 42}\<close> and on the empty object.\<close>

theorem method_not_found_witness:
  "handle_mcp_request [] ''T'' (PyDict [(''method'', PyStr ''foo/bar''), (''id'', PyInt 42)]) =
     Inr (PyDict
       [(''jsonrpc'', PyStr ''2.0''),
        (''error'', PyDict
           [(''code'', PyInt (- 32601)),
            (''message'', PyStr ''Method not found: foo/bar'')]),
        (''id'', PyInt 42)])
   \<and> handle_mcp_request [] ''T'' (PyDict []) =
     Inr (PyDict
       [(''jsonrpc'', PyStr ''2.0''),
        (''error'', PyDict
           [(''code'', PyInt (- 32601)),
            (''message'', PyStr ''Method not found: None'')]),
        (''id'', PyNone)])"
  using method_not_found [of "[(''method'', PyStr ''foo/bar''), (''id'', PyInt 42)]" "[]" "''T''"]
    method_not_found [of "[]" "[]" "''T''"]
  by (simp add: dict_get_def)

text \<open>
  Claim C9. A body that parses to anything but an object makes \<open>request.get\<close> raise
  \<open>AttributeError\<close>; the handler answers 500 with the error \<open>-32603\<close> and a null id.
\<close>

theorem non_object_body:
  assumes "\<not> is_dict request"
  shows "do_POST ws now (Parsed request) =
           Inr \<lparr>status = 500,
                headers = [(''Content-type'', ''application/json'')],
                payload = PyDict
                  [(''jsonrpc'', PyStr ''2.0''),
                   (''error'', PyDict
                      [(''code'', PyInt (- 32603)),
                       (''message'', PyStr (quoted (type_name request) @ '' object has no attribute '' @ quoted ''get''))]),
                   (''id'', PyNone)]\<rparr>"
proof -
  have "handle_mcp_request ws now request =
          Inl (AttributeError (quoted (type_name request) @ '' object has no attribute '' @ quoted ''get''))"
    using assms by (simp add: handle_mcp_request_def py_get_other)
  moreover have "(case request of PyDict items \<Rightarrow> dict_get items ''id'' PyNone | _ \<Rightarrow> PyNone) = PyNone"
    using assms by (cases request) simp_all
  ultimately show ?thesis
    by (simp add: do_POST_def post_failure_def)
qed

text \<open>Claim C9 on the bodies \<open>[]\<close> and \<open>7\<close>.\<close>

theorem non_object_body_witness:
  "\<not> is_dict (PyList []) \<and> \<not> is_dict (PyInt 7)
   \<and> do_POST [] ''T'' (Parsed (PyList [])) =
       Inr \<lparr>status = 500,
            headers = [(''Content-type'', ''application/json'')],
            payload = PyDict
              [(''jsonrpc'', PyStr ''2.0''),
               (''error'', PyDict
                  [(''code'', PyInt (- 32603)),
                   (''message'', PyStr (quoted ''list'' @ '' object has no attribute '' @ quoted ''get''))]),
               (''id'', PyNone)]\<rparr>
   \<and> do_POST [] ''T'' (Parsed (PyInt 7)) =
       Inr \<lparr>status = 500,
            headers = [(''Content-type'', ''application/json'')],
            payload = PyDict
              [(''jsonrpc'', PyStr ''2.0''),
               (''error'', PyDict
                  [(''code'', PyInt (- 32603)),
                   (''message'', PyStr (quoted ''int'' @ '' object has no attribute '' @ quoted ''get''))]),
               (''id'', PyNone)]\<rparr>"
  using non_object_body [of "PyList []" "[]" "''T''"] non_object_body [of "PyInt 7" "[]" "''T''"]
  by simp

text \<open>
  Claim C4. For a \<open>resources/read\<close> request whose \<open>params\<close> is a mapping (or absent): an
  \<open>uri\<close> other than the state resource makes the lookup raise \<open>ValueError\<close> with the
  rendered \<open>uri\<close> at the end of its message, and \<open>do_POST\<close> answers 500 with the error
  \<open>-32603\<close>, that message and the request's id; the state resource is answered with the
  snapshot as \<open>json.dumps(..., indent=2)\<close> writes it.
\<close>

theorem resources_read:
  assumes "dict_get items ''method'' PyNone = PyStr ''resources/read''"
      and "dict_get items ''params'' (PyDict []) = PyDict ps"
      and "uri = dict_get ps ''uri'' PyNone"
  shows "(uri \<noteq> PyStr ''sublime-context://state'' \<longrightarrow>
            get_resource_content ws now uri = Inl (ValueError (''Unknown resource URI: '' @ py_str uri))
            \<and> do_POST ws now (Parsed (PyDict items)) =
                Inr \<lparr>status = 500,
                     headers = [(''Content-type'', ''application/json'')],
                     payload = PyDict
                       [(''jsonrpc'', PyStr ''2.0''),
                        (''error'', PyDict
                           [(''code'', PyInt (- 32603)),
                            (''message'', PyStr (''Unknown resource URI: '' @ py_str uri))]),
                        (''id'', dict_get items ''id'' PyNone)]\<rparr>)
       \<and> (\<forall>u. uri = PyStr u \<longrightarrow> py_str uri = u)
       \<and> (uri = PyStr ''sublime-context://state'' \<longrightarrow>
            get_resource_content ws now uri = Inr (dumps_indent 2 0 (get_state_snapshot ws now))
            \<and> do_POST ws now (Parsed (PyDict items)) =
                Inr \<lparr>status = 200,
                     headers = [(''Content-type'', ''application/json'')],
                     payload = PyDict
                       [(''jsonrpc'', PyStr ''2.0''),
                        (''result'', PyDict
                           [(''contents'', PyList
                               [PyDict
                                  [(''uri'', uri),
                                   (''mimeType'', PyStr ''application/json''),
                                   (''text'', PyStr (dumps_indent 2 0 (get_state_snapshot ws now)))]])]),
                        (''id'', dict_get items ''id'' PyNone)]\<rparr>)"
proof -
  have pre: "handle_mcp_request ws now (PyDict items) =
          (case get_resource_content ws now uri of
             Inl e \<Rightarrow> Inl e
           | Inr content \<Rightarrow>
               Inr (PyDict
                 [(''jsonrpc'', PyStr ''2.0''),
                  (''result'', PyDict
                     [(''contents'', PyList
                         [PyDict
                            [(''uri'', uri),
                             (''mimeType'', PyStr ''application/json''),
                             (''text'', PyStr content)]])]),
                  (''id'', dict_get items ''id'' PyNone)]))"
    using assms(1,2) unfolding assms(3) by (simp add: handle_mcp_request_def py_get_dict)
  show ?thesis
    by (simp add: pre do_POST_def post_failure_def get_resource_content_def py_str_def)
qed

text \<open>What \<open>json.dumps(..., indent=2)\<close> writes for the snapshot of an editor without windows.\<close>

lemma empty_snapshot_text:
  "dumps_indent 2 0 (get_state_snapshot [] ''2026-01-01T00:00:00'') =
     ''{'' @ [CHR 0x0A]
     @ ''  '' @ [CHR 0x22] @ ''activeFiles'' @ [CHR 0x22] @ '': [],'' @ [CHR 0x0A]
     @ ''  '' @ [CHR 0x22] @ ''otherFiles'' @ [CHR 0x22] @ '': [],'' @ [CHR 0x0A]
     @ ''  '' @ [CHR 0x22] @ ''projectFolders'' @ [CHR 0x22] @ '': [],'' @ [CHR 0x0A]
     @ ''  '' @ [CHR 0x22] @ ''lastUpdated'' @ [CHR 0x22] @ '': ''
         @ [CHR 0x22] @ ''2026-01-01T00:00:00'' @ [CHR 0x22] @ [CHR 0x0A]
     @ ''}''"
  by (simp add: get_state_snapshot_def scan_windows_def initial_state_def newline_indent_def
        json_string_def json_char_def eval_nat_numeral)

text \<open>
  Claim C4 on a request for \<open>file:///etc/passwd\<close> with id 7, and on a request for the
  state resource with id 8 when the editor has no window.
\<close>

theorem resources_read_witness:
  "do_POST [] ''2026-01-01T00:00:00''
     (Parsed (PyDict [(''method'', PyStr ''resources/read''),
                      (''params'', PyDict [(''uri'', PyStr ''file:///etc/passwd'')]),
                      (''id'', PyInt 7)])) =
     Inr \<lparr>status = 500,
          headers = [(''Content-type'', ''application/json'')],
          payload = PyDict
            [(''jsonrpc'', PyStr ''2.0''),
             (''error'', PyDict
                [(''code'', PyInt (- 32603)),
                 (''message'', PyStr ''Unknown resource URI: file:///etc/passwd'')]),
             (''id'', PyInt 7)]\<rparr>
   \<and> do_POST [] ''2026-01-01T00:00:00''
     (Parsed (PyDict [(''method'', PyStr ''resources/read''),
                      (''params'', PyDict [(''uri'', PyStr ''sublime-context://state'')]),
                      (''id'', PyInt 8)])) =
     Inr \<lparr>status = 200,
          headers = [(''Content-type'', ''application/json'')],
          payload = PyDict
            [(''jsonrpc'', PyStr ''2.0''),
             (''result'', PyDict
                [(''contents'', PyList
                    [PyDict
                       [(''uri'', PyStr ''sublime-context://state''),
                        (''mimeType'', PyStr ''application/json''),
                        (''text'', PyStr
                           (''{'' @ [CHR 0x0A]
                            @ ''  '' @ [CHR 0x22] @ ''activeFiles'' @ [CHR 0x22] @ '': [],'' @ [CHR 0x0A]
                            @ ''  '' @ [CHR 0x22] @ ''otherFiles'' @ [CHR 0x22] @ '': [],'' @ [CHR 0x0A]
                            @ ''  '' @ [CHR 0x22] @ ''projectFolders'' @ [CHR 0x22] @ '': [],'' @ [CHR 0x0A]
                            @ ''  '' @ [CHR 0x22] @ ''lastUpdated'' @ [CHR 0x22] @ '': ''
                                @ [CHR 0x22] @ ''2026-01-01T00:00:00'' @ [CHR 0x22] @ [CHR 0x0A]
                            @ ''}''))]])]),
             (''id'', PyInt 8)]\<rparr>"
  using resources_read
    [of "[(''method'', PyStr ''resources/read''),
          (''params'', PyDict [(''uri'', PyStr ''file:///etc/passwd'')]),
          (''id'', PyInt 7)]"
        "[(''uri'', PyStr ''file:///etc/passwd'')]" "PyStr ''file:///etc/passwd''" "[]"
        "''2026-01-01T00:00:00''"]
    resources_read
    [of "[(''method'', PyStr ''resources/read''),
          (''params'', PyDict [(''uri'', PyStr ''sublime-context://state'')]),
          (''id'', PyInt 8)]"
        "[(''uri'', PyStr ''sublime-context://state'')]" "PyStr ''sublime-context://state''" "[]"
        "''2026-01-01T00:00:00''"]
  by (simp add: dict_get_def empty_snapshot_text)

section \<open>Properties of the server\<close>

text \<open>
  On a server that is not running and a port that is free, \<open>start\<close> leaves a bound socket
  on which \<open>SO_REUSEADDR\<close> was never set: the attribute is switched on after the
  constructor has bound.
\<close>

lemma start_bind_ok:
  "\<not> running self \<Longrightarrow>
     \<exists>self' out srv. start None t self = Inr (self', out) \<and> server self' = Some srv
        \<and> bound srv \<and> \<not> so_reuseaddr srv \<and> allow_reuse_address srv"
  by (cases t) (simp_all add: start_def TCPServer_def server_bind_def Let_def)

text \<open>
  Claim C7, at a fresh \<open>MCPServer(port=8765)\<close> and a free port: the claim asks for the reuse
  option to be in effect on the socket when it is bound; the code binds without it and sets
  the attribute afterwards.
\<close>

theorem reuse_option_not_set_at_bind:
  "start None None (new_MCPServer 8765) =
     Inr (\<lparr>port = 8765,
           server = Some \<lparr>server_address = (''127.0.0.1'', 8765), allow_reuse_address = True,
                          so_reuseaddr = False, bound = True\<rparr>,
           thread = Some \<lparr>daemon = True, started = True\<rparr>,
           running = True\<rparr>,
          [''EditorContextMCP: Server started on http://127.0.0.1:8765''])"
  by (simp add: start_def TCPServer_def server_bind_def new_MCPServer_def Let_def int_str_def
        dec_nat.simps digit_char_def)

text \<open>
  Claim C8. \<open>start\<close> never raises; on a running server it changes nothing and prints
  nothing; when the bind fails it prints the failure and leaves the object as it was, so a
  new server keeps \<open>running\<close> false and \<open>server\<close> unset.
\<close>

theorem start_never_raises:
  "(\<exists>self' out. start b t self = Inr (self', out))
   \<and> (running self \<longrightarrow> start b t self = Inr (self, []))
   \<and> (\<forall>e. \<not> running self \<and> b = Some e \<longrightarrow>
          start b t self = Inr (self, [''EditorContextMCP: Failed to start server: '' @ message e]))
   \<and> (\<forall>e p. start (Some e) t (new_MCPServer p) =
                Inr (new_MCPServer p, [''EditorContextMCP: Failed to start server: '' @ message e])
            \<and> \<not> running (new_MCPServer p) \<and> server (new_MCPServer p) = None)"
  by (cases b; cases t)
     (simp_all add: start_def TCPServer_def server_bind_def new_MCPServer_def Let_def)

text \<open>Claim C8 on a port in use, and on a server that is running.\<close>

theorem start_never_raises_witness:
  "start (Some (OSError ''[Errno 98] Address already in use'')) None (new_MCPServer 8765) =
     Inr (\<lparr>port = 8765, server = None, thread = None, running = False\<rparr>,
          [''EditorContextMCP: Failed to start server: [Errno 98] Address already in use''])
   \<and> start None None (\<lparr>port = 8765, server = None, thread = None, running = True\<rparr>) =
     Inr (\<lparr>port = 8765, server = None, thread = None, running = True\<rparr>, [])"
  using start_never_raises [of "Some (OSError ''[Errno 98] Address already in use'')" None "new_MCPServer 8765"]
    start_never_raises [of None None "\<lparr>port = 8765, server = None, thread = None, running = True\<rparr>"]
  by (simp add: new_MCPServer_def)

end
